theory Spec2Isabelle
  imports
    Main
    "HOL-Library.Char_ord"
    "HOL-Library.List_Lexorder"
    "HOL-Library.AList"
    "HOL-Library.Sublist"
begin

section \<open>Python values\<close>

text \<open>
  The repository is Python. The values that travel through the cache and the constraint
  filter are \<^verbatim>\<open>None\<close>, booleans, integers, strings and flat lists of those
  (filter values such as \<^verbatim>\<open>beds=['3', '4']\<close>, the list of image URLs). Strings are byte
  strings: a character beyond ASCII is its UTF-8 bytes. Floats are outside the model.
  A dict is an association list with distinct keys in insertion order.
\<close>

datatype pyatom = PNone | PBool bool | PInt int | PStr string

datatype pyval = Atom pyatom | PList "pyatom list"

type_synonym pydict = "(string \<times> pyval) list"

datatype error =
    TypeError
  | ValueError
  | AttributeError
  | OverflowError
  | BindError
  | UpstreamFetchError

abbreviation py_None :: pyval where
  "py_None \<equiv> Atom PNone"

text \<open>\<^verbatim>\<open>d.get(k)\<close>: the value under \<open>k\<close>, \<^verbatim>\<open>None\<close> when the key is absent.\<close>

definition dict_get :: "pydict \<Rightarrow> string \<Rightarrow> pyval" where
  "dict_get d k = (case map_of d k of None \<Rightarrow> py_None | Some v \<Rightarrow> v)"

text \<open>\<^verbatim>\<open>d.get(k, default)\<close>.\<close>

definition dict_get_default :: "pydict \<Rightarrow> string \<Rightarrow> pyval \<Rightarrow> pyval" where
  "dict_get_default d k dflt = (case map_of d k of None \<Rightarrow> dflt | Some v \<Rightarrow> v)"

text \<open>Truth value testing, as \<^verbatim>\<open>if v:\<close> does it.\<close>

fun truthy :: "pyval \<Rightarrow> bool" where
  "truthy (Atom PNone) = False"
| "truthy (Atom (PBool b)) = b"
| "truthy (Atom (PInt n)) = (n \<noteq> 0)"
| "truthy (Atom (PStr s)) = (s \<noteq> [])"
| "truthy (PList xs) = (xs \<noteq> [])"

subsection \<open>Strings\<close>

text \<open>\<^verbatim>\<open>str.isspace\<close> on ASCII: tab, line feed, VT, FF, CR, the separators 0x1C-0x1F, space.\<close>

definition is_space :: "char \<Rightarrow> bool" where
  "is_space c = (c \<in> set [CHR 0x09, CHR 0x0A, CHR 0x0B, CHR 0x0C, CHR 0x0D,
                           CHR 0x1C, CHR 0x1D, CHR 0x1E, CHR 0x1F, CHR 0x20])"

text \<open>\<^verbatim>\<open>s.strip()\<close>.\<close>

definition strip :: "string \<Rightarrow> string" where
  "strip s = rev (dropWhile is_space (rev (dropWhile is_space s)))"

definition lower_char :: "char \<Rightarrow> char" where
  "lower_char c =
     (case map_of (zip ''ABCDEFGHIJKLMNOPQRSTUVWXYZ'' ''abcdefghijklmnopqrstuvwxyz'') c of
        None \<Rightarrow> c
      | Some l \<Rightarrow> l)"

text \<open>\<^verbatim>\<open>s.lower()\<close>, on the ASCII letters.\<close>

definition lower :: "string \<Rightarrow> string" where
  "lower s = map lower_char s"

text \<open>\<^verbatim>\<open>sub in s\<close> for strings: \<open>sub\<close> occurs in \<open>s\<close> as a contiguous run.\<close>

fun py_in :: "string \<Rightarrow> string \<Rightarrow> bool" where
  "py_in sub [] = (sub = [])"
| "py_in sub (c # cs) = (prefix sub (c # cs) \<or> py_in sub cs)"

text \<open>\<^verbatim>\<open>sep.join(xs)\<close> on a list of strings.\<close>

fun str_join :: "string \<Rightarrow> string list \<Rightarrow> string" where
  "str_join sep [] = []"
| "str_join sep [x] = x"
| "str_join sep (x # y # ys) = x @ sep @ str_join sep (y # ys)"

text \<open>
  \<^verbatim>\<open>s.split(',')\<close>: cuts at every comma; the result is never empty, and the empty
  string splits into one empty piece.
\<close>

fun split_comma :: "string \<Rightarrow> string list" where
  "split_comma [] = [[]]"
| "split_comma (c # cs) =
     (if c = CHR '','' then [] # split_comma cs
      else (case split_comma cs of
              [] \<Rightarrow> [[c]]
            | w # ws \<Rightarrow> (c # w) # ws))"

subsection \<open>Numbers and text\<close>

definition digit_val :: "char \<Rightarrow> nat option" where
  "digit_val c = map_of (zip ''0123456789'' [0, 1, 2, 3, 4, 5, 6, 7, 8, 9]) c"

text \<open>
  The digits of a decimal literal after its first digit: single underscores may stand
  between digits (\<^verbatim>\<open>int('1_000') == 1000\<close>).
\<close>

fun parse_digits :: "nat \<Rightarrow> string \<Rightarrow> nat option" where
  "parse_digits acc [] = Some acc"
| "parse_digits acc [c] = (case digit_val c of None \<Rightarrow> None | Some v \<Rightarrow> Some (acc * 10 + v))"
| "parse_digits acc (c # d # ds) =
     (if c = CHR ''_''
      then (case digit_val d of None \<Rightarrow> None | Some v \<Rightarrow> parse_digits (acc * 10 + v) ds)
      else (case digit_val c of None \<Rightarrow> None | Some v \<Rightarrow> parse_digits (acc * 10 + v) (d # ds)))"

definition parse_literal :: "string \<Rightarrow> nat option" where
  "parse_literal s =
     (case s of
        [] \<Rightarrow> None
      | c # cs \<Rightarrow> (case digit_val c of None \<Rightarrow> None | Some v \<Rightarrow> parse_digits v cs))"

text \<open>
  \<^verbatim>\<open>int(s)\<close> for a string: surrounding whitespace, an optional sign, a decimal literal;
  anything else is a \<^verbatim>\<open>ValueError\<close>.
\<close>

definition int_of_str :: "string \<Rightarrow> error + int" where
  "int_of_str s =
     (let t = strip s;
          r = (case t of
                 [] \<Rightarrow> None
               | c # cs \<Rightarrow>
                   if c = CHR ''-'' then map_option (\<lambda>n. - int n) (parse_literal cs)
                   else if c = CHR ''+'' then map_option int (parse_literal cs)
                   else map_option int (parse_literal t))
      in case r of None \<Rightarrow> Inl ValueError | Some n \<Rightarrow> Inr n)"

text \<open>\<^verbatim>\<open>int(v)\<close>.\<close>

fun py_int :: "pyval \<Rightarrow> error + int" where
  "py_int (Atom PNone) = Inl TypeError"
| "py_int (Atom (PBool b)) = Inr (if b then 1 else 0)"
| "py_int (Atom (PInt n)) = Inr n"
| "py_int (Atom (PStr s)) = int_of_str s"
| "py_int (PList xs) = Inl TypeError"

function str_nat :: "nat \<Rightarrow> string" where
  "str_nat n =
     (if n < 10 then [''0123456789'' ! n]
      else str_nat (n div 10) @ [''0123456789'' ! (n mod 10)])"
  by pat_completeness auto
termination
  by (relation "measure id") auto

declare str_nat.simps [simp del]

definition str_int :: "int \<Rightarrow> string" where
  "str_int n = (if n < 0 then CHR ''-'' # str_nat (nat (- n)) else str_nat (nat n))"

text \<open>\<^verbatim>\<open>str(v)\<close> for a scalar.\<close>

fun str_atom :: "pyatom \<Rightarrow> string" where
  "str_atom PNone = ''None''"
| "str_atom (PBool b) = (if b then ''True'' else ''False'')"
| "str_atom (PInt n) = str_int n"
| "str_atom (PStr s) = s"

definition hex_byte :: "string \<Rightarrow> char \<Rightarrow> string" where
  "hex_byte digits c = [digits ! (of_char c div 16), digits ! (of_char c mod 16)]"

text \<open>
  \<^verbatim>\<open>repr(s)\<close> for a string: single quotes unless the string holds a single quote and no
  double quote; the quote and the backslash are escaped, control characters are written
  as escapes (bytes from 0x80 on are kept as they are).
\<close>

definition repr_char :: "char \<Rightarrow> char \<Rightarrow> string" where
  "repr_char q c =
     (if c = q \<or> c = CHR 0x5C then [CHR 0x5C, c]
      else if c = CHR 0x09 then [CHR 0x5C, CHR ''t'']
      else if c = CHR 0x0A then [CHR 0x5C, CHR ''n'']
      else if c = CHR 0x0D then [CHR 0x5C, CHR ''r'']
      else if (of_char c :: nat) < 32 \<or> c = CHR 0x7F
        then [CHR 0x5C, CHR ''x''] @ hex_byte ''0123456789abcdef'' c
      else [c])"

definition repr_str :: "string \<Rightarrow> string" where
  "repr_str s =
     (let q = (if CHR 0x27 \<in> set s \<and> CHR 0x22 \<notin> set s then CHR 0x22 else CHR 0x27)
      in q # concat (map (repr_char q) s) @ [q])"

fun repr_atom :: "pyatom \<Rightarrow> string" where
  "repr_atom (PStr s) = repr_str s"
| "repr_atom a = str_atom a"

text \<open>\<^verbatim>\<open>str(v)\<close>.\<close>

fun py_str :: "pyval \<Rightarrow> string" where
  "py_str (Atom a) = str_atom a"
| "py_str (PList xs) = ''['' @ str_join '', '' (map repr_atom xs) @ '']''"

subsection \<open>Comparison\<close>

fun num_of :: "pyatom \<Rightarrow> int option" where
  "num_of (PBool b) = Some (if b then 1 else 0)"
| "num_of (PInt n) = Some n"
| "num_of a = None"

text \<open>\<^verbatim>\<open>a == b\<close> on scalars: a boolean is the integer 0 or 1.\<close>

definition atom_eq :: "pyatom \<Rightarrow> pyatom \<Rightarrow> bool" where
  "atom_eq a b =
     (case (num_of a, num_of b) of
        (Some x, Some y) \<Rightarrow> x = y
      | _ \<Rightarrow> a = b)"

text \<open>
  \<^verbatim>\<open>a < b\<close> on scalars: numbers with numbers, strings with strings (by code point);
  every other pairing raises \<^verbatim>\<open>TypeError\<close>.
\<close>

fun atom_lt :: "pyatom \<Rightarrow> pyatom \<Rightarrow> error + bool" where
  "atom_lt (PStr s) (PStr t) = Inr (s < t)"
| "atom_lt a b =
     (case (num_of a, num_of b) of
        (Some x, Some y) \<Rightarrow> Inr (x < y)
      | _ \<Rightarrow> Inl TypeError)"

text \<open>Lists compare at the first position where they differ, else by length.\<close>

fun list_lt :: "pyatom list \<Rightarrow> pyatom list \<Rightarrow> error + bool" where
  "list_lt [] [] = Inr False"
| "list_lt [] (y # ys) = Inr True"
| "list_lt (x # xs) [] = Inr False"
| "list_lt (x # xs) (y # ys) = (if atom_eq x y then list_lt xs ys else atom_lt x y)"

fun py_lt :: "pyval \<Rightarrow> pyval \<Rightarrow> error + bool" where
  "py_lt (Atom a) (Atom b) = atom_lt a b"
| "py_lt (PList xs) (PList ys) = list_lt xs ys"
| "py_lt a b = Inl TypeError"

definition py_gt :: "pyval \<Rightarrow> pyval \<Rightarrow> error + bool" where
  "py_gt a b = py_lt b a"

text \<open>
  \<^verbatim>\<open>xs[start:stop]\<close>: a negative bound counts from the end, both bounds are clipped to
  the list, and the slice is empty when they cross. Slicing never raises.
\<close>

definition py_slice :: "'a list \<Rightarrow> int \<Rightarrow> int \<Rightarrow> 'a list" where
  "py_slice xs start stop =
     (let n = int (length xs);
          lo = (if start < 0 then max (start + n) 0 else min start n);
          hi = (if stop < 0 then max (stop + n) 0 else min stop n)
      in take (nat (hi - lo)) (drop (nat lo) xs))"

section \<open>The cache key (test_prop.py, search_properties, lines 37-46)\<close>

text \<open>
  \<^verbatim>\<open>urllib.parse.quote_plus\<close>: letters, digits and \<^verbatim>\<open>_.-~\<close> stay, a space becomes
  \<^verbatim>\<open>+\<close>, every other byte becomes \<^verbatim>\<open>%XX\<close>.
\<close>

definition quote_plus :: "string \<Rightarrow> string" where
  "quote_plus s =
     concat (map (\<lambda>c.
       if c \<in> set ''ABCDEFGHIJKLMNOPQRSTUVWXYZabcdefghijklmnopqrstuvwxyz0123456789_.-~''
         then [c]
       else if c = CHR '' '' then ''+''
       else CHR ''%'' # hex_byte ''0123456789ABCDEF'' c) s)"

text \<open>
  \<^verbatim>\<open>urlencode(items, doseq=True)\<close>: a list value gives one \<^verbatim>\<open>key=value\<close> segment per
  element, any other value one segment; the segments are joined by \<^verbatim>\<open>&\<close>.
\<close>

fun segments :: "string \<times> pyval \<Rightarrow> string list" where
  "segments (k, Atom a) = [quote_plus k @ ''='' @ quote_plus (str_atom a)]"
| "segments (k, PList xs) = map (\<lambda>e. quote_plus k @ ''='' @ quote_plus (str_atom e)) xs"

definition urlencode :: "pydict \<Rightarrow> string" where
  "urlencode items = str_join ''&'' (concat (map segments items))"

text \<open>
  Line 37: \<^verbatim>\<open>{k: v for k, v in filters.items() if v and v != ['']}\<close>.
\<close>

definition drop_unset :: "pydict \<Rightarrow> pydict" where
  "drop_unset filters = filter (\<lambda>(k, v). truthy v \<and> v \<noteq> PList [PStr []]) filters"

text \<open>Lines 37-41: the cleaned filters with \<^verbatim>\<open>page\<close> and \<^verbatim>\<open>limit\<close> set.\<close>

definition cleaned_filters :: "pydict \<Rightarrow> int \<Rightarrow> int \<Rightarrow> pydict" where
  "cleaned_filters filters page limit =
     AList.update ''limit'' (Atom (PInt limit))
       (AList.update ''page'' (Atom (PInt page)) (drop_unset filters))"

text \<open>
  Lines 45-46: \<^verbatim>\<open>urlencode(sorted(cleaned_filters.items()), doseq=True)\<close>. The keys of a
  dict are distinct, so sorting the items compares keys only.
\<close>

definition query_string :: "pydict \<Rightarrow> int \<Rightarrow> int \<Rightarrow> string" where
  "query_string filters page limit =
     urlencode (sort_key fst (cleaned_filters filters page limit))"



section \<open>The store (database.py)\<close>

text \<open>
  The three tables of \<^verbatim>\<open>init_db\<close>. A value in a table is \<^verbatim>\<open>NULL\<close>, an integer or text.
  \<^item> \<^verbatim>\<open>cached_queries(id, query_string UNIQUE, created_at)\<close>: the rows in key order. Rows
    are never deleted, so the next \<^verbatim>\<open>AUTOINCREMENT\<close> key is one above the largest key.
  \<^item> \<^verbatim>\<open>cached_properties\<close>, with the text \<^verbatim>\<open>id\<close> as primary key: a map from the id to
    the row. The column \<^verbatim>\<open>all_image_urls\<close> is declared \<^verbatim>\<open>TEXT\<close>, so it holds \<^verbatim>\<open>NULL\<close>
    or text (an integer bound to it is stored as its decimal text); the other columns
    hold the values as they were bound (the conversion that the declared type of a
    column applies to a value of another type changes the stored data only, and is not
    modelled).
  \<^item> \<^verbatim>\<open>query_property_map(query_id, property_id)\<close>, unique pairs, in insertion order.
  \<^verbatim>\<open>created_at\<close> defaults to \<^verbatim>\<open>CURRENT_TIMESTAMP\<close>: the clock reading at the insertion,
  which the operations take as the argument \<open>now\<close>.
\<close>

datatype sqlval = Null | Integer int | Text string

type_synonym timestamp = string

record property_row =
  columns_before :: "sqlval list"
  all_image_urls :: "string option"
  columns_after :: "sqlval list"
  created_at :: timestamp

record store =
  cached_queries :: "(nat \<times> string \<times> timestamp) list"
  cached_properties :: "string \<rightharpoonup> property_row"
  query_property_map :: "(nat \<times> string) list"

text \<open>
  A connection: what has been committed, and what the connection sees (the committed
  state and the changes of the open transaction).
\<close>

record database =
  committed :: store
  working :: store

definition empty_store :: store where
  "empty_store = \<lparr>cached_queries = [], cached_properties = Map.empty, query_property_map = []\<rparr>"

definition empty_db :: database where
  "empty_db = \<lparr>committed = empty_store, working = empty_store\<rparr>"

definition commit :: "database \<Rightarrow> database" where
  "commit d = d\<lparr>committed := working d\<rparr>"

definition rollback :: "database \<Rightarrow> database" where
  "rollback d = d\<lparr>working := committed d\<rparr>"

definition execute :: "(store \<Rightarrow> store) \<Rightarrow> database \<Rightarrow> database" where
  "execute stmt d = d\<lparr>working := stmt (working d)\<rparr>"

text \<open>\<^verbatim>\<open>SELECT id FROM cached_queries WHERE query_string = ?\<close>, first row.\<close>

definition select_query_id :: "string \<Rightarrow> store \<Rightarrow> nat option" where
  "select_query_id qs s = map_of (map (\<lambda>(i, q, t). (q, i)) (cached_queries s)) qs"

text \<open>\<^verbatim>\<open>INSERT OR IGNORE INTO cached_queries (query_string) VALUES (?)\<close>.\<close>

definition insert_query :: "timestamp \<Rightarrow> string \<Rightarrow> store \<Rightarrow> store" where
  "insert_query now qs s =
     (if select_query_id qs s \<noteq> None then s
      else s\<lparr>cached_queries :=
               cached_queries s @ [(Suc (fold max (map fst (cached_queries s)) 0), qs, now)]\<rparr>)"

text \<open>\<^verbatim>\<open>INSERT OR REPLACE INTO cached_properties (...) VALUES (...)\<close>.\<close>

definition replace_property :: "string \<Rightarrow> property_row \<Rightarrow> store \<Rightarrow> store" where
  "replace_property pid row s = s\<lparr>cached_properties := (cached_properties s)(pid \<mapsto> row)\<rparr>"

text \<open>\<^verbatim>\<open>INSERT OR IGNORE INTO query_property_map (query_id, property_id) VALUES (?, ?)\<close>.\<close>

definition insert_link :: "nat \<Rightarrow> string \<Rightarrow> store \<Rightarrow> store" where
  "insert_link q pid s =
     (if (q, pid) \<in> set (query_property_map s) then s
      else s\<lparr>query_property_map := query_property_map s @ [(q, pid)]\<rparr>)"

text \<open>\<^verbatim>\<open>find_cached_query\<close>: \<^verbatim>\<open>result[0] if result else None\<close>.\<close>

definition find_cached_query :: "string \<Rightarrow> database \<Rightarrow> nat option" where
  "find_cached_query qs d = select_query_id qs (working d)"

subsection \<open>save_query_and_properties\<close>

text \<open>
  Binding a parameter: \<^verbatim>\<open>None\<close>, integers (a boolean is one) and strings are supported,
  an integer must fit 64 bits, and a list is refused.
\<close>

fun bind :: "pyval \<Rightarrow> error + sqlval" where
  "bind (Atom PNone) = Inr Null"
| "bind (Atom (PBool b)) = Inr (Integer (if b then 1 else 0))"
| "bind (Atom (PInt n)) =
     (if - (2 ^ 63) \<le> n \<and> n < 2 ^ 63 then Inr (Integer n) else Inl OverflowError)"
| "bind (Atom (PStr s)) = Inr (Text s)"
| "bind (PList xs) = Inl BindError"

fun bind_all :: "pyval list \<Rightarrow> error + sqlval list" where
  "bind_all [] = Inr []"
| "bind_all (v # vs) =
     (case bind v of
        Inl e \<Rightarrow> Inl e
      | Inr x \<Rightarrow> (case bind_all vs of Inl e \<Rightarrow> Inl e | Inr xs \<Rightarrow> Inr (x # xs)))"

text \<open>The text that a \<^verbatim>\<open>TEXT\<close> column stores for a bound value.\<close>

fun text_affinity :: "sqlval \<Rightarrow> string option" where
  "text_affinity Null = None"
| "text_affinity (Integer n) = Some (str_int n)"
| "text_affinity (Text s) = Some s"

text \<open>\<^verbatim>\<open>','.join(xs)\<close> raises \<^verbatim>\<open>TypeError\<close> unless every element is a string.\<close>

fun strings_of :: "pyatom list \<Rightarrow> error + string list" where
  "strings_of [] = Inr []"
| "strings_of (PStr s # xs) =
     (case strings_of xs of Inl e \<Rightarrow> Inl e | Inr ss \<Rightarrow> Inr (s # ss))"
| "strings_of (a # xs) = Inl TypeError"

text \<open>
  Lines 112-116: a list is joined by commas (the empty list gives the empty string), any
  other value is passed on as it is; a dict without the key counts as the empty list.
\<close>

definition all_image_urls_str :: "pydict \<Rightarrow> error + pyval" where
  "all_image_urls_str prop =
     (case dict_get_default prop ''all_image_urls'' (PList []) of
        PList xs \<Rightarrow>
          (if xs \<noteq> []
           then (case strings_of xs of
                   Inl e \<Rightarrow> Inl e
                 | Inr ss \<Rightarrow> Inr (Atom (PStr (str_join '','' ss))))
           else Inr (Atom (PStr [])))
      | Atom a \<Rightarrow> Inr (Atom a))"

definition names_before :: "string list" where
  "names_before =
     [''title'', ''price'', ''area'', ''rooms'', ''baths'', ''purpose'', ''completion_status'',
      ''latitude'', ''longitude'', ''location_name'', ''cover_photo_url'']"

definition names_after :: "string list" where
  "names_after =
     [''agency_name'', ''contact_name'', ''mobile_number'', ''whatsapp_number'',
      ''down_payment_percentage'']"

text \<open>\<^verbatim>\<open>str(prop.get('id'))\<close>: the primary key of the row.\<close>

definition property_id :: "pydict \<Rightarrow> string" where
  "property_id prop = py_str (dict_get prop ''id'')"

text \<open>
  Lines 112-145 for one property: the eighteen parameters are built and bound in order,
  and the row is what the statement stores at the clock reading \<open>now\<close>.
\<close>

definition property_row_of :: "timestamp \<Rightarrow> pydict \<Rightarrow> error + property_row" where
  "property_row_of now prop =
     (case all_image_urls_str prop of
        Inl e \<Rightarrow> Inl e
      | Inr img \<Rightarrow>
          (case bind_all (Atom (PStr (property_id prop)) # map (dict_get prop) names_before) of
             Inl e \<Rightarrow> Inl e
           | Inr leading \<Rightarrow>
               (case bind img of
                  Inl e \<Rightarrow> Inl e
                | Inr i \<Rightarrow>
                    (case bind_all (map (dict_get prop) names_after) of
                       Inl e \<Rightarrow> Inl e
                     | Inr trailing \<Rightarrow>
                         Inr \<lparr>columns_before = leading, all_image_urls = text_affinity i,
                              columns_after = trailing, created_at = now\<rparr>))))"

text \<open>
  The loop of lines 110-151 on the state the connection sees: it stops at the first
  property that raises, leaving the changes made so far in the open transaction.
\<close>

fun save_properties ::
  "timestamp \<Rightarrow> nat \<Rightarrow> pydict list \<Rightarrow> store \<Rightarrow> (error + unit) \<times> store" where
  "save_properties now query_id [] s = (Inr (), s)"
| "save_properties now query_id (prop # props) s =
     (case property_row_of now prop of
        Inl e \<Rightarrow> (Inl e, s)
      | Inr row \<Rightarrow>
          save_properties now query_id props
            (insert_link query_id (property_id prop)
               (replace_property (property_id prop) row s)))"

text \<open>
  \<^verbatim>\<open>save_query_and_properties\<close>, lines 92-159: the query row is inserted and committed
  (line 103), its id is read back, the properties and links are written and committed
  (line 153); on an exception the open transaction is rolled back and the exception is
  raised again (lines 156-159).
\<close>

definition save_query_and_properties ::
  "timestamp \<Rightarrow> string \<Rightarrow> pydict list \<Rightarrow> database \<Rightarrow> (error + unit) \<times> database" where
  "save_query_and_properties now qs properties d =
     (let d1 = commit (execute (insert_query now qs) d)
      in case select_query_id qs (working d1) of
           None \<Rightarrow> (Inl TypeError, rollback d1)
         | Some query_id \<Rightarrow>
             (case save_properties now query_id properties (working d1) of
                (Inl e, s) \<Rightarrow> (Inl e, rollback (d1\<lparr>working := s\<rparr>))
              | (Inr u, s) \<Rightarrow> (Inr (), commit (d1\<lparr>working := s\<rparr>))))"

subsection \<open>get_properties_for_query\<close>

definition sql_to_py :: "sqlval \<Rightarrow> pyval" where
  "sql_to_py v = (case v of Null \<Rightarrow> py_None | Integer n \<Rightarrow> Atom (PInt n) | Text s \<Rightarrow> Atom (PStr s))"

text \<open>
  Lines 177-182: \<^verbatim>\<open>dict(row)\<close> with the image text turned back into a list:
  \<^verbatim>\<open>s.split(',') if s else []\<close>.
\<close>

definition images_of_text :: "string option \<Rightarrow> pyval" where
  "images_of_text t =
     (case t of
        None \<Rightarrow> PList []
      | Some s \<Rightarrow> (if s \<noteq> [] then PList (map PStr (split_comma s)) else PList []))"

definition dict_of_row :: "property_row \<Rightarrow> pydict" where
  "dict_of_row row =
     zip (''id'' # names_before) (map sql_to_py (columns_before row))
     @ [(''all_image_urls'', images_of_text (all_image_urls row))]
     @ zip names_after (map sql_to_py (columns_after row))
     @ [(''created_at'', Atom (PStr (created_at row)))]"

text \<open>
  The join of lines 167-171. The statement has no \<^verbatim>\<open>ORDER BY\<close>; the model returns the
  rows in the order of the links.
\<close>

definition get_properties_for_query :: "nat \<Rightarrow> database \<Rightarrow> pydict list" where
  "get_properties_for_query query_id d =
     concat (map (\<lambda>(q, pid).
        if q = query_id
        then (case cached_properties (working d) pid of
                None \<Rightarrow> []
              | Some row \<Rightarrow> [dict_of_row row])
        else []) (query_property_map (working d)))"

section \<open>search_properties (test_prop.py)\<close>

text \<open>
  The state of a search: the connection, and the log of the calls made to the external
  listing source (\<^verbatim>\<open>property_finder.property_finder_search\<close>), one entry per call with
  the filters it was given.
\<close>

record world =
  db :: database
  upstream_calls :: "pydict list"

text \<open>
  Lines 73-74: \<^verbatim>\<open>cleaned_filters['location_query'] = cleaned_filters.pop('query')\<close>.
\<close>

definition rename_query :: "pydict \<Rightarrow> pydict" where
  "rename_query cleaned =
     (case map_of cleaned ''query'' of
        None \<Rightarrow> cleaned
      | Some v \<Rightarrow> AList.update ''location_query'' v (AList.delete ''query'' cleaned))"

text \<open>
  Lines 94-104, the loop of the price filter: a property without price is not appended;
  the comparisons are Python's and may raise.
\<close>

fun price_filter :: "pyval \<Rightarrow> pyval \<Rightarrow> pydict list \<Rightarrow> error + pydict list" where
  "price_filter min_price max_price [] = Inr []"
| "price_filter min_price max_price (prop # props) =
     (let price = dict_get prop ''price'' in
      case (if price \<noteq> py_None
            then (case (if min_price \<noteq> py_None then py_lt price min_price else Inr False) of
                    Inl e \<Rightarrow> Inl e
                  | Inr True \<Rightarrow> Inr False
                  | Inr False \<Rightarrow>
                      (case (if max_price \<noteq> py_None then py_gt price max_price else Inr False) of
                         Inl e \<Rightarrow> Inl e
                       | Inr True \<Rightarrow> Inr False
                       | Inr False \<Rightarrow> Inr True))
            else Inr False) of
        Inl e \<Rightarrow> Inl e
      | Inr keep \<Rightarrow>
          (case price_filter min_price max_price props of
             Inl e \<Rightarrow> Inl e
           | Inr rest \<Rightarrow> Inr (if keep then prop # rest else rest)))"

text \<open>Lines 89-107.\<close>

definition apply_price_filter :: "pydict \<Rightarrow> pydict list \<Rightarrow> error + pydict list" where
  "apply_price_filter cleaned properties =
     (let min_price = dict_get cleaned ''min_price'';
          max_price = dict_get cleaned ''max_price''
      in if min_price \<noteq> py_None \<or> max_price \<noteq> py_None
         then price_filter min_price max_price properties
         else Inr properties)"

text \<open>Lines 59-62: the page of a stored result sequence.\<close>

definition paginated_properties :: "'a list \<Rightarrow> int \<Rightarrow> int \<Rightarrow> 'a list" where
  "paginated_properties properties_data page limit =
     (let start = (page - 1) * limit;
          stop = start + limit
      in py_slice properties_data start stop)"

text \<open>
  \<^verbatim>\<open>search_properties(filters, page, limit)\<close>. The listing source is the parameter
  \<open>upstream\<close>: given the filters it answers with listings or raises. It may add keys to
  the filters it is given (the real one adds \<^verbatim>\<open>location_id\<close>), which does not change
  what lines 89-90 read. \<open>now\<close> is the clock reading of the call.
\<close>

definition search_properties ::
  "(pydict \<Rightarrow> error + pydict list) \<Rightarrow> timestamp \<Rightarrow> pydict \<Rightarrow> int \<Rightarrow> int \<Rightarrow> world
     \<Rightarrow> (error + pydict list) \<times> world" where
  "search_properties upstream now filters page limit w =
     (let qs = query_string filters page limit;
          query_id = find_cached_query qs (db w)
      in if (case query_id of None \<Rightarrow> False | Some q \<Rightarrow> q \<noteq> 0)
         then (Inr (paginated_properties (get_properties_for_query (the query_id) (db w)) page limit), w)
         else
           (let cleaned = rename_query (cleaned_filters filters page limit);
                w1 = w\<lparr>upstream_calls := upstream_calls w @ [cleaned]\<rparr>
            in case upstream cleaned of
                 Inl e \<Rightarrow> (Inl e, w1)
               | Inr properties \<Rightarrow>
                   (case (if properties \<noteq> []
                          then save_query_and_properties now qs properties (db w1)
                          else (Inr (), db w1)) of
                      (Inl e, d) \<Rightarrow> (Inl e, w1\<lparr>db := d\<rparr>)
                    | (Inr u, d) \<Rightarrow> (apply_price_filter cleaned properties, w1\<lparr>db := d\<rparr>))))"


section \<open>The constraint filter (pf_debug_api.py, _filter_listings_by_constraints)\<close>

text \<open>
  \<^verbatim>\<open>(v or '').strip().lower()\<close>, lines 210 and 233: a falsy value counts as the empty
  string; a truthy value that is not a string has no \<^verbatim>\<open>strip\<close>.
\<close>

definition purpose_text :: "pyval \<Rightarrow> error + string" where
  "purpose_text v =
     (if truthy v
      then (case v of Atom (PStr s) \<Rightarrow> Inr (lower (strip s)) | _ \<Rightarrow> Inl AttributeError)
      else Inr [])"

text \<open>
  \<^verbatim>\<open>try: ... except (ValueError, TypeError): pass\<close> around a test that skips the listing:
  when the test raises one of the two, the listing is not skipped by it.
\<close>

definition except_pass :: "error + bool \<Rightarrow> error + bool" where
  "except_pass r =
     (case r of
        Inl e \<Rightarrow> (if e = ValueError \<or> e = TypeError then Inr False else Inl e)
      | Inr b \<Rightarrow> Inr b)"

text \<open>Lines 237-243: \<^verbatim>\<open>price < int(min_price)\<close>.\<close>

definition price_too_low :: "pyval \<Rightarrow> pyval \<Rightarrow> error + bool" where
  "price_too_low min_price price =
     (if min_price \<noteq> py_None \<and> price \<noteq> py_None
      then except_pass
             (case py_int min_price of
                Inl e \<Rightarrow> Inl e
              | Inr m \<Rightarrow> py_lt price (Atom (PInt m)))
      else Inr False)"

text \<open>Lines 246-252: \<^verbatim>\<open>price > int(max_price)\<close>.\<close>

definition price_too_high :: "pyval \<Rightarrow> pyval \<Rightarrow> error + bool" where
  "price_too_high max_price price =
     (if max_price \<noteq> py_None \<and> price \<noteq> py_None
      then except_pass
             (case py_int max_price of
                Inl e \<Rightarrow> Inl e
              | Inr m \<Rightarrow> py_gt price (Atom (PInt m)))
      else Inr False)"

text \<open>Lines 255-263: \<^verbatim>\<open>int(rooms) != int(beds)\<close>.\<close>

definition beds_mismatch :: "pyval \<Rightarrow> pyval \<Rightarrow> error + bool" where
  "beds_mismatch beds rooms =
     (if beds \<noteq> py_None \<and> rooms \<noteq> py_None
      then except_pass
             (case py_int beds of
                Inl e \<Rightarrow> Inl e
              | Inr beds_int \<Rightarrow>
                  (case py_int rooms of
                     Inl e \<Rightarrow> Inl e
                   | Inr rooms_int \<Rightarrow> Inr (rooms_int \<noteq> beds_int)))
      else Inr False)"

text \<open>Lines 266-272.\<close>

definition purpose_mismatch :: "string \<Rightarrow> string \<Rightarrow> bool" where
  "purpose_mismatch purpose p_purpose =
     (purpose \<noteq> [] \<and> p_purpose \<noteq> [] \<and>
      ((purpose = ''sale'' \<and> \<not> py_in ''sale'' p_purpose) \<or>
       (purpose = ''rent'' \<and> \<not> py_in ''rent'' p_purpose)))"

text \<open>
  The body of the loop, lines 231-275, for one listing: whether it is appended to the
  result. The purpose text of the listing is computed first, and may raise.
\<close>

definition listing_passes :: "pyval \<Rightarrow> pyval \<Rightarrow> pyval \<Rightarrow> string \<Rightarrow> pydict \<Rightarrow> error + bool" where
  "listing_passes min_price max_price beds purpose p =
     (case purpose_text (dict_get p ''purpose'') of
        Inl e \<Rightarrow> Inl e
      | Inr p_purpose \<Rightarrow>
          (case price_too_low min_price (dict_get p ''price'') of
             Inl e \<Rightarrow> Inl e
           | Inr True \<Rightarrow> Inr False
           | Inr False \<Rightarrow>
               (case price_too_high max_price (dict_get p ''price'') of
                  Inl e \<Rightarrow> Inl e
                | Inr True \<Rightarrow> Inr False
                | Inr False \<Rightarrow>
                    (case beds_mismatch beds (dict_get p ''rooms'') of
                       Inl e \<Rightarrow> Inl e
                     | Inr True \<Rightarrow> Inr False
                     | Inr False \<Rightarrow> Inr (\<not> purpose_mismatch purpose p_purpose)))))"

fun filter_loop ::
  "pyval \<Rightarrow> pyval \<Rightarrow> pyval \<Rightarrow> string \<Rightarrow> pydict list \<Rightarrow> error + pydict list" where
  "filter_loop min_price max_price beds purpose [] = Inr []"
| "filter_loop min_price max_price beds purpose (p # ps) =
     (case listing_passes min_price max_price beds purpose p of
        Inl e \<Rightarrow> Inl e
      | Inr keep \<Rightarrow>
          (case filter_loop min_price max_price beds purpose ps of
             Inl e \<Rightarrow> Inl e
           | Inr filtered \<Rightarrow> Inr (if keep then p # filtered else filtered)))"

text \<open>
  \<^verbatim>\<open>_filter_listings_by_constraints(listings, constraints)\<close>, for a list of listings (the
  guard of line 203 is for an argument that is not a list).
\<close>

definition filter_listings_by_constraints :: "pydict list \<Rightarrow> pydict \<Rightarrow> error + pydict list" where
  "filter_listings_by_constraints listings constraints =
     (case purpose_text (dict_get constraints ''purpose'') of
        Inl e \<Rightarrow> Inl e
      | Inr purpose \<Rightarrow>
          filter_loop (dict_get constraints ''min_price'') (dict_get constraints ''max_price'')
            (dict_get constraints ''beds'') purpose listings)"


section \<open>Derived notions used in the statements\<close>

text \<open>
  The image list that \<^verbatim>\<open>get_properties_for_query\<close> returns for a property once
  \<^verbatim>\<open>save_query_and_properties\<close> has stored it: the row of \<open>property_row_of\<close> read back
  by \<open>dict_of_row\<close>.
\<close>

definition fetched_image_urls :: "timestamp \<Rightarrow> pydict \<Rightarrow> error + pyval" where
  "fetched_image_urls now prop =
     (case property_row_of now prop of
        Inl e \<Rightarrow> Inl e
      | Inr row \<Rightarrow> Inr (dict_get (dict_of_row row) ''all_image_urls''))"


text \<open>A value that is a number: an integer or a boolean.\<close>

fun numeric :: "pyval \<Rightarrow> bool" where
  "numeric (Atom a) = (num_of a \<noteq> None)"
| "numeric (PList xs) = False"

text \<open>A listing source that answers every call with the listings \<open>ls\<close>.\<close>

definition answering :: "pydict list \<Rightarrow> pydict \<Rightarrow> error + pydict list" where
  "answering ls f = Inr ls"

text \<open>A listing source that raises on every call.\<close>

definition failing :: "pydict \<Rightarrow> error + pydict list" where
  "failing f = Inl UpstreamFetchError"

text \<open>The state before the first search: nothing stored, no call made.\<close>

definition cold :: world where
  "cold = \<lparr>db = empty_db, upstream_calls = []\<rparr>"

text \<open>The \<^verbatim>\<open>id\<close> of each listing of a result.\<close>

definition ids_of :: "error + pydict list \<Rightarrow> error + pyval list" where
  "ids_of r = (case r of Inl e \<Rightarrow> Inl e | Inr ls \<Rightarrow> Inr (map (\<lambda>d. dict_get d ''id'') ls))"

section \<open>The image-URL list in storage\<close>

lemma split_comma_no_comma:
  "CHR '','' \<notin> set x \<Longrightarrow> split_comma (x @ CHR '','' # rest) = x # split_comma rest"
  by (induction x) auto

lemma split_comma_single: "CHR '','' \<notin> set x \<Longrightarrow> split_comma x = [x]"
  by (induction x) auto

lemma split_join_comma:
  "xs \<noteq> [] \<Longrightarrow> \<forall>x\<in>set xs. CHR '','' \<notin> set x \<Longrightarrow> split_comma (str_join '','' xs) = xs"
proof (induction xs)
  case Nil
  then show ?case by simp
next
  case (Cons x xs)
  show ?case
  proof (cases xs)
    case Nil
    with Cons.prems show ?thesis by (simp add: split_comma_single)
  next
    case (Cons y ys)
    with Cons.IH Cons.prems show ?thesis by (simp add: split_comma_no_comma)
  qed
qed

lemma str_join_comma_Nil_iff:
  "str_join '','' xs = [] \<longleftrightarrow> xs = [] \<or> xs = [[]]"
proof (cases xs)
  case Nil
  then show ?thesis by simp
next
  case (Cons x ys)
  then show ?thesis by (cases ys) auto
qed

lemma strings_of_strs: "strings_of (map PStr ss) = Inr ss"
  by (induction ss) auto


lemma map_of_zip_notin: "k \<notin> set ks \<Longrightarrow> map_of (zip ks vs) k = None"
proof (induction ks arbitrary: vs)
  case Nil
  then show ?case by simp
next
  case (Cons a ks)
  then show ?case by (cases vs) auto
qed

lemma dict_get_all_image_urls:
  "dict_get (dict_of_row row) ''all_image_urls'' = images_of_text (all_image_urls row)"
proof -
  have "''all_image_urls'' \<notin> set (''id'' # names_before)"
    by (simp add: names_before_def)
  then have "map_of (zip (''id'' # names_before) (map sql_to_py (columns_before row)))
      ''all_image_urls'' = None"
    by (rule map_of_zip_notin)
  then show ?thesis
    by (simp add: dict_get_def dict_of_row_def map_add_def)
qed

lemma images_of_text_join:
  assumes "\<forall>u\<in>set urls. CHR '','' \<notin> set u" and "urls \<noteq> [[]]"
  shows "images_of_text (Some (if urls \<noteq> [] then str_join '','' urls else [])) = PList (map PStr urls)"
proof (cases "urls = []")
  case True
  then show ?thesis by (simp add: images_of_text_def)
next
  case False
  with assms(2) have "str_join '','' urls \<noteq> []"
    by (simp add: str_join_comma_Nil_iff)
  with False assms(1) show ?thesis
    by (simp add: images_of_text_def split_join_comma)
qed



text \<open>
  Claim C3, as amended. A property whose \<^verbatim>\<open>all_image_urls\<close> is a list of strings, none
  of which contains a comma, and which is not the list holding only the empty string: the
  row that \<^verbatim>\<open>save_query_and_properties\<close> stores for it is read back by
  \<^verbatim>\<open>get_properties_for_query\<close> with the identical list, the empty list as the empty list.
\<close>

theorem image_urls_round_trip:
  assumes "map_of prop ''all_image_urls'' = Some (PList (map PStr urls))"
    and "\<forall>u\<in>set urls. CHR '','' \<notin> set u"
    and "urls \<noteq> [[]]"
    and "property_row_of now prop = Inr row"
  shows "dict_get (dict_of_row row) ''all_image_urls'' = PList (map PStr urls)"
proof -
  have img: "all_image_urls_str prop = Inr (Atom (PStr (if urls \<noteq> [] then str_join '','' urls else [])))"
    using assms(1) by (simp add: all_image_urls_str_def dict_get_default_def strings_of_strs)
  from assms(4) have "all_image_urls row = Some (if urls \<noteq> [] then str_join '','' urls else [])"
    unfolding property_row_of_def img by (auto split: sum.splits)
  with images_of_text_join [OF assms(2,3)] show ?thesis
    by (simp add: dict_get_all_image_urls)
qed

lemma row_of_three_urls:
  "property_row_of ''t'' [(''id'', Atom (PInt 7)), (''all_image_urls'', PList (map PStr [''a'', ''b'', ''c'']))] =
     Inr \<lparr>columns_before = Text ''7'' # replicate 11 Null, all_image_urls = Some ''a,b,c'',
          columns_after = replicate 5 Null, created_at = ''t''\<rparr>"
  by (simp add: property_row_of_def all_image_urls_str_def dict_get_default_def dict_get_def
      property_id_def names_before_def names_after_def str_int_def str_nat.simps eval_nat_numeral)

lemma row_of_no_urls:
  "property_row_of ''t'' [(''id'', Atom (PInt 7)), (''all_image_urls'', PList (map PStr []))] =
     Inr \<lparr>columns_before = Text ''7'' # replicate 11 Null, all_image_urls = Some [],
          columns_after = replicate 5 Null, created_at = ''t''\<rparr>"
  by (simp add: property_row_of_def all_image_urls_str_def dict_get_default_def dict_get_def
      property_id_def names_before_def names_after_def str_int_def str_nat.simps eval_nat_numeral)

theorem image_urls_round_trip_witness:
  "property_row_of ''t'' [(''id'', Atom (PInt 7)), (''all_image_urls'', PList (map PStr [''a'', ''b'', ''c'']))] =
     Inr \<lparr>columns_before = Text ''7'' # replicate 11 Null, all_image_urls = Some ''a,b,c'',
          columns_after = replicate 5 Null, created_at = ''t''\<rparr>
   \<and> dict_get (dict_of_row \<lparr>columns_before = Text ''7'' # replicate 11 Null,
          all_image_urls = Some ''a,b,c'', columns_after = replicate 5 Null, created_at = ''t''\<rparr>)
        ''all_image_urls'' = PList [PStr ''a'', PStr ''b'', PStr ''c'']
   \<and> dict_get (dict_of_row \<lparr>columns_before = Text ''7'' # replicate 11 Null,
          all_image_urls = Some [], columns_after = replicate 5 Null, created_at = ''t''\<rparr>)
        ''all_image_urls'' = PList []"
  using
    image_urls_round_trip [of "[(''id'', Atom (PInt 7)), (''all_image_urls'', PList (map PStr [''a'', ''b'', ''c'']))]"
      "[''a'', ''b'', ''c'']" "''t''", OF _ _ _ row_of_three_urls]
    image_urls_round_trip [of "[(''id'', Atom (PInt 7)), (''all_image_urls'', PList (map PStr []))]"
      "[]" "''t''", OF _ _ _ row_of_no_urls]
    row_of_three_urls
  by simp

text \<open>
  Claim C3 as stated fails: a URL that contains a comma is read back as two URLs, and the
  list holding one empty string is read back as the empty list.
\<close>

theorem image_urls_round_trip_counterexample:
  "fetched_image_urls ''t'' [(''id'', Atom (PInt 7)), (''all_image_urls'', PList [PStr ''a,b''])]
     = Inr (PList [PStr ''a'', PStr ''b''])
   \<and> fetched_image_urls ''t'' [(''id'', Atom (PInt 7)), (''all_image_urls'', PList [PStr []])]
     = Inr (PList [])"
  by (simp add: fetched_image_urls_def property_row_of_def all_image_urls_str_def
      dict_get_default_def dict_get_def property_id_def names_before_def names_after_def
      str_int_def str_nat.simps dict_of_row_def images_of_text_def)

section \<open>The cache key is independent of the order of the filters\<close>

lemma distinct_keys_sort_key:
  assumes "distinct (map fst xs)"
  shows "distinct (map fst (sort_key fst xs))"
proof -
  have "card (set (map fst (sort_key fst xs))) = card (set (map fst xs))"
    by simp
  also have "\<dots> = length (map fst xs)"
    using assms by (rule distinct_card)
  also have "\<dots> = length (map fst (sort_key fst xs))"
    by simp
  finally show ?thesis
    by (rule card_distinct)
qed

lemma sort_key_fst_unique:
  assumes dx: "distinct (map fst xs)" and dy: "distinct (map fst ys)"
    and eq: "set xs = set ys"
  shows "sort_key fst xs = sort_key fst ys"
proof -
  let ?xs = "sort_key fst xs" and ?ys = "sort_key fst ys"
  have keys: "map fst ?xs = map fst ?ys"
  proof (rule sorted_distinct_set_unique)
    show "sorted (map fst ?xs)" "sorted (map fst ?ys)"
      by (rule sorted_sort_key)+
    show "distinct (map fst ?xs)" "distinct (map fst ?ys)"
      using dx dy by (simp_all add: distinct_keys_sort_key)
    show "set (map fst ?xs) = set (map fst ?ys)"
      using eq by simp
  qed
  then have len: "length ?xs = length ?ys"
    by (rule map_eq_imp_length_eq)
  show ?thesis
  proof (rule nth_equalityI [OF len])
    fix i
    assume i: "i < length ?xs"
    with len have j: "i < length ?ys" by simp
    from i have "?xs ! i \<in> set ?xs" by (rule nth_mem)
    then have mx: "(fst (?xs ! i), snd (?xs ! i)) \<in> set xs" by simp
    from j have "?ys ! i \<in> set ?ys" by (rule nth_mem)
    then have "(fst (?ys ! i), snd (?ys ! i)) \<in> set xs" using eq by simp
    moreover have "fst (?xs ! i) = fst (?ys ! i)"
      using keys i j by (metis nth_map)
    ultimately have "snd (?xs ! i) = snd (?ys ! i)"
      using mx dx by (metis eq_key_imp_eq_value)
    with \<open>fst (?xs ! i) = fst (?ys ! i)\<close> show "?xs ! i = ?ys ! i"
      by (simp add: prod_eq_iff)
  qed
qed

lemma distinct_drop_unset: "distinct (map fst f) \<Longrightarrow> distinct (map fst (drop_unset f))"
  by (simp add: drop_unset_def distinct_map_filter)

lemma distinct_cleaned_filters:
  "distinct (map fst f) \<Longrightarrow> distinct (map fst (cleaned_filters f page limit))"
  by (simp add: cleaned_filters_def distinct_drop_unset AList.distinct_update)

lemma cleaned_filters_cong:
  assumes "distinct (map fst fa)" and "distinct (map fst fb)"
    and "set (drop_unset fa) = set (drop_unset fb)"
  shows "set (cleaned_filters fa page limit) = set (cleaned_filters fb page limit)"
proof -
  have "map_of (drop_unset fa) = map_of (drop_unset fb)"
    using assms by (simp add: map_of_inject_set distinct_drop_unset)
  then have "map_of (cleaned_filters fa page limit) = map_of (cleaned_filters fb page limit)"
    by (simp add: cleaned_filters_def AList.update_conv')
  then show ?thesis
    using assms(1,2) by (simp add: map_of_inject_set distinct_cleaned_filters)
qed

text \<open>
  Claim C4. Two filter dicts that hold the same key/value pairs once the unset values are
  dropped get the same cache key for the same page and limit, in whatever order their
  keys were inserted.
\<close>

theorem query_string_order_insensitive:
  assumes "distinct (map fst fa)" and "distinct (map fst fb)"
    and "set (drop_unset fa) = set (drop_unset fb)"
  shows "query_string fa page limit = query_string fb page limit"
proof -
  have "sort_key fst (cleaned_filters fa page limit) = sort_key fst (cleaned_filters fb page limit)"
    using assms by (intro sort_key_fst_unique distinct_cleaned_filters cleaned_filters_cong)
  then show ?thesis
    by (simp add: query_string_def)
qed

theorem query_string_order_insensitive_witness:
  "query_string [(''query'', Atom (PStr ''Victory Heights'')), (''purpose'', Atom (PStr ''sale'')),
                 (''beds'', PList [PStr ''5'']), (''sort'', Atom (PStr [])), (''baths'', PList [PStr []])] 1 50
   = query_string [(''amenities'', PList []), (''beds'', PList [PStr ''5'']), (''purpose'', Atom (PStr ''sale'')),
                   (''min_price'', py_None), (''query'', Atom (PStr ''Victory Heights''))] 1 50
   \<and> query_string [(''query'', Atom (PStr ''Victory Heights'')), (''purpose'', Atom (PStr ''sale'')),
                 (''beds'', PList [PStr ''5'']), (''sort'', Atom (PStr [])), (''baths'', PList [PStr []])] 1 50
   = ''beds=5&limit=50&page=1&purpose=sale&query=Victory+Heights''"
proof -
  have "query_string [(''query'', Atom (PStr ''Victory Heights'')), (''purpose'', Atom (PStr ''sale'')),
                 (''beds'', PList [PStr ''5'']), (''sort'', Atom (PStr [])), (''baths'', PList [PStr []])] 1 50
   = query_string [(''amenities'', PList []), (''beds'', PList [PStr ''5'']), (''purpose'', Atom (PStr ''sale'')),
                   (''min_price'', py_None), (''query'', Atom (PStr ''Victory Heights''))] 1 50"
    by (rule query_string_order_insensitive) (auto simp add: drop_unset_def)
  moreover have "query_string [(''query'', Atom (PStr ''Victory Heights'')), (''purpose'', Atom (PStr ''sale'')),
                 (''beds'', PList [PStr ''5'']), (''sort'', Atom (PStr [])), (''baths'', PList [PStr []])] 1 50
   = ''beds=5&limit=50&page=1&purpose=sale&query=Victory+Heights''"
    by (simp add: query_string_def cleaned_filters_def drop_unset_def urlencode_def quote_plus_def
        str_int_def str_nat.simps)
  ultimately show ?thesis by simp
qed


section \<open>The constraint filter\<close>

lemma filter_loop_Inr:
  "filter_loop mn mx b pu ls = Inr out \<Longrightarrow>
     out = filter (\<lambda>p. listing_passes mn mx b pu p = Inr True) ls"
  by (induction ls arbitrary: out) (auto split: sum.splits)


lemma filter_loop_single:
  "filter_loop mn mx b pu [p] = Inr [p] \<longleftrightarrow> listing_passes mn mx b pu p = Inr True"
  by (auto split: sum.splits)

lemma dict_get_delete:
  "dict_get (AList.delete k d) k' = (if k' = k then py_None else dict_get d k')"
  by (simp add: dict_get_def AList.delete_conv')










lemma purpose_text_None: "purpose_text py_None = Inr []"
  by (simp add: purpose_text_def)

lemma purpose_mismatch_Nil: "\<not> purpose_mismatch [] pp"
  by (simp add: purpose_mismatch_def)

lemma listing_passes_purpose:
  assumes "purpose_text (dict_get p ''purpose'') = Inr pp"
  shows "listing_passes mn mx beds pu p = Inr True \<longleftrightarrow>
         \<not> purpose_mismatch pu pp \<and> listing_passes mn mx beds [] p = Inr True"
  unfolding listing_passes_def assms
  by (auto simp add: purpose_mismatch_Nil split: sum.splits bool.splits)

text \<open>
  Claim C8, as amended. The purpose constraint is compared trimmed and in lower case, and
  it is applied for the two values \<^verbatim>\<open>sale\<close> and \<^verbatim>\<open>rent\<close> only: with a listing whose purpose
  text is not empty, the listing is kept exactly when that word occurs in its purpose
  text (and the other constraints keep it). Any other value, and an empty text on either
  side, rejects nothing.
\<close>

theorem purpose_sale_rent_only:
  assumes "filter_listings_by_constraints listings constraints = Inr filtered"
    and "p \<in> set listings"
    and "purpose_text (dict_get constraints ''purpose'') = Inr purpose"
    and "purpose_text (dict_get p ''purpose'') = Inr p_purpose"
  shows "p \<in> set filtered \<longleftrightarrow>
           ((purpose = ''sale'' \<or> purpose = ''rent'') \<and> p_purpose \<noteq> [] \<longrightarrow>
              py_in purpose p_purpose) \<and>
           filter_listings_by_constraints [p] (AList.delete ''purpose'' constraints) = Inr [p]"
proof -
  let ?mn = "dict_get constraints ''min_price''" and ?mx = "dict_get constraints ''max_price''"
  let ?beds = "dict_get constraints ''beds''"
  from assms(1,3) have loop: "filter_loop ?mn ?mx ?beds purpose listings = Inr filtered"
    by (simp add: filter_listings_by_constraints_def)
  then have "p \<in> set filtered \<longleftrightarrow> listing_passes ?mn ?mx ?beds purpose p = Inr True"
    using assms(2) by (auto dest: filter_loop_Inr)
  also have "\<dots> \<longleftrightarrow> \<not> purpose_mismatch purpose p_purpose \<and>
      listing_passes ?mn ?mx ?beds [] p = Inr True"
    by (rule listing_passes_purpose [OF assms(4)])
  also have "listing_passes ?mn ?mx ?beds [] p = Inr True \<longleftrightarrow>
      filter_listings_by_constraints [p] (AList.delete ''purpose'' constraints) = Inr [p]"
    by (simp add: filter_listings_by_constraints_def dict_get_delete purpose_text_None
        filter_loop_single del: filter_loop.simps)
  also have "\<not> purpose_mismatch purpose p_purpose \<longleftrightarrow>
      ((purpose = ''sale'' \<or> purpose = ''rent'') \<and> p_purpose \<noteq> [] \<longrightarrow> py_in purpose p_purpose)"
    by (auto simp add: purpose_mismatch_def)
  finally show ?thesis .
qed

lemmas filter_eval =
  filter_listings_by_constraints_def listing_passes_def dict_get_def
  purpose_text_def price_too_low_def price_too_high_def beds_mismatch_def except_pass_def
  purpose_mismatch_def strip_def is_space_def lower_def lower_char_def

lemma filter_sale:
  "filter_listings_by_constraints
     [[(''id'', Atom (PInt 1)), (''purpose'', Atom (PStr ''For Sale''))],
      [(''id'', Atom (PInt 2)), (''purpose'', Atom (PStr ''For Rent''))]]
     [(''purpose'', Atom (PStr '' Sale ''))]
   = Inr [[(''id'', Atom (PInt 1)), (''purpose'', Atom (PStr ''For Sale''))]]"
  by (simp add: filter_eval)

lemma purpose_text_Sale: "purpose_text (Atom (PStr '' Sale '')) = Inr ''sale''"
  by (simp add: filter_eval)

lemma purpose_text_For_Rent: "purpose_text (Atom (PStr ''For Rent'')) = Inr ''for rent''"
  by (simp add: filter_eval)

theorem purpose_sale_rent_only_witness:
  "filter_listings_by_constraints
     [[(''id'', Atom (PInt 1)), (''purpose'', Atom (PStr ''For Sale''))],
      [(''id'', Atom (PInt 2)), (''purpose'', Atom (PStr ''For Rent''))]]
     [(''purpose'', Atom (PStr '' Sale ''))]
   = Inr [[(''id'', Atom (PInt 1)), (''purpose'', Atom (PStr ''For Sale''))]]
   \<and> purpose_text (dict_get [(''purpose'', Atom (PStr '' Sale ''))] ''purpose'') = Inr ''sale''
   \<and> purpose_text (dict_get [(''id'', Atom (PInt 2)), (''purpose'', Atom (PStr ''For Rent''))] ''purpose'')
       = Inr ''for rent''
   \<and> \<not> py_in ''sale'' ''for rent''"
  using purpose_sale_rent_only [OF filter_sale,
      of "[(''id'', Atom (PInt 2)), (''purpose'', Atom (PStr ''For Rent''))]" "''sale''" "''for rent''"]
    filter_sale purpose_text_Sale purpose_text_For_Rent
  by (simp add: dict_get_def)

text \<open>
  Claim C8 as stated fails: the constraint \<^verbatim>\<open>buy\<close> does not occur in \<^verbatim>\<open>For Sale\<close>, and the
  listing is kept.
\<close>

theorem purpose_substring_counterexample:
  "filter_listings_by_constraints
     [[(''id'', Atom (PInt 1)), (''purpose'', Atom (PStr ''For Sale''))]]
     [(''purpose'', Atom (PStr ''buy''))]
   = Inr [[(''id'', Atom (PInt 1)), (''purpose'', Atom (PStr ''For Sale''))]]
   \<and> \<not> py_in (lower ''buy'') (lower ''For Sale'')"
  by (simp add: filter_eval)


lemma int_of_str_error: "int_of_str s = Inl e \<Longrightarrow> e = ValueError"
  by (simp add: int_of_str_def Let_def split: option.splits)

lemma py_int_error: "py_int v = Inl e \<Longrightarrow> e = ValueError \<or> e = TypeError"
  by (cases v rule: py_int.cases) (auto dest: int_of_str_error)

lemma py_lt_not_numeric: "\<not> numeric price \<Longrightarrow> py_lt price (Atom (PInt m)) = Inl TypeError"
  by (cases price rule: numeric.cases; cases "case price of Atom a \<Rightarrow> a | _ \<Rightarrow> PNone") auto

lemma py_gt_not_numeric: "\<not> numeric price \<Longrightarrow> py_gt price (Atom (PInt m)) = Inl TypeError"
  unfolding py_gt_def
  by (cases price rule: numeric.cases; cases "case price of Atom a \<Rightarrow> a | _ \<Rightarrow> PNone") auto

lemma price_too_low_not_numeric: "\<not> numeric price \<Longrightarrow> price_too_low mn price = Inr False"
  by (auto simp add: price_too_low_def except_pass_def py_lt_not_numeric
      split: sum.splits dest: py_int_error)

lemma price_too_high_not_numeric: "\<not> numeric price \<Longrightarrow> price_too_high mx price = Inr False"
  by (auto simp add: price_too_high_def except_pass_def py_gt_not_numeric
      split: sum.splits dest: py_int_error)

text \<open>
  In the constraint filter a listing whose price is absent or not a number is not
  touched by the price constraints: it is kept exactly when it is kept without them.
\<close>

lemma listing_passes_without_price:
  assumes "\<not> numeric (dict_get p ''price'')"
  shows "listing_passes mn mx beds pu p = listing_passes py_None py_None beds pu p"
  unfolding listing_passes_def
  by (simp add: price_too_low_not_numeric [OF assms] price_too_high_not_numeric [OF assms]
      cong: sum.case_cong)

lemmas store_eval =
  search_properties_def query_string_def cleaned_filters_def drop_unset_def urlencode_def
  quote_plus_def str_int_def str_nat.simps find_cached_query_def select_query_id_def
  save_query_and_properties_def commit_def rollback_def execute_def insert_query_def
  replace_property_def insert_link_def property_row_of_def all_image_urls_str_def
  dict_get_default_def dict_get_def property_id_def names_before_def names_after_def
  empty_db_def empty_store_def cold_def rename_query_def apply_price_filter_def
  answering_def failing_def py_gt_def paginated_properties_def py_slice_def
  get_properties_for_query_def dict_of_row_def images_of_text_def sql_to_py_def Let_def

text \<open>
  Claim C7. The price filter that \<^verbatim>\<open>search_properties\<close> applies after a live fetch drops
  a listing without price, where the constraint filter keeps it: with
  \<^verbatim>\<open>min_price=2000000\<close> and one listing that has no price, the search returns nothing and
  \<^verbatim>\<open>_filter_listings_by_constraints\<close> returns the listing.
\<close>

theorem price_filter_drops_missing_price:
  "fst (search_properties (answering [[(''id'', Atom (PInt 1)), (''title'', Atom (PStr ''villa''))]])
         ''t'' [(''min_price'', Atom (PInt 2000000))] 1 50 cold)
     = Inr []
   \<and> filter_listings_by_constraints [[(''id'', Atom (PInt 1)), (''title'', Atom (PStr ''villa''))]]
        [(''min_price'', Atom (PInt 2000000))]
     = Inr [[(''id'', Atom (PInt 1)), (''title'', Atom (PStr ''villa''))]]"
  by (simp add: store_eval filter_eval)


section \<open>Pagination of cached results\<close>

lemma py_slice_nonneg:
  assumes "0 \<le> s" and "0 \<le> l"
  shows "py_slice xs s (s + l) = take (nat l) (drop (nat s) xs)"
proof -
  let ?n = "int (length xs)"
  consider "s + l \<le> ?n" | "s \<le> ?n" "?n < s + l" | "?n < s"
    by linarith
  then show ?thesis
  proof cases
    case 1
    with assms show ?thesis
      by (simp add: py_slice_def Let_def min_def)
  next
    case 2
    with assms have "py_slice xs s (s + l) = take (nat (?n - s)) (drop (nat s) xs)"
      by (simp add: py_slice_def Let_def min_def)
    also have "\<dots> = drop (nat s) xs"
      using assms by (simp add: nat_diff_distrib)
    also have "\<dots> = take (nat l) (drop (nat s) xs)"
      using 2 assms by (simp add: nat_le_iff)
    finally show ?thesis .
  next
    case 3
    with assms show ?thesis
      by (simp add: py_slice_def Let_def min_def nat_le_iff)
  qed
qed

lemma py_slice_page:
  assumes "1 \<le> page" and "1 \<le> limit"
  shows "py_slice xs ((page - 1) * limit) ((page - 1) * limit + limit)
         = take (nat limit) (drop (nat ((page - 1) * limit)) xs)"
  using assms by (intro py_slice_nonneg) simp_all

text \<open>
  Claim C9, as amended. On a cache hit the search never fails, whatever the page and the
  limit are: it returns the Python slice \<^verbatim>\<open>[(page-1)*limit : (page-1)*limit + limit]\<close> of
  the stored sequence and changes nothing. For a page and a limit of at least one that
  slice starts at \<^verbatim>\<open>(page-1)*limit\<close> and has at most \<open>limit\<close> elements, clipped to the
  sequence.
\<close>

theorem pagination_never_fails:
  assumes "find_cached_query (query_string filters page limit) (db w) = Some q" and "q \<noteq> 0"
  shows "search_properties upstream now filters page limit w
           = (Inr (py_slice (get_properties_for_query q (db w))
                     ((page - 1) * limit) ((page - 1) * limit + limit)), w)
       \<and> (1 \<le> page \<and> 1 \<le> limit \<longrightarrow>
            py_slice (get_properties_for_query q (db w))
              ((page - 1) * limit) ((page - 1) * limit + limit)
            = take (nat limit) (drop (nat ((page - 1) * limit)) (get_properties_for_query q (db w))))"
  using assms
  by (simp add: search_properties_def paginated_properties_def Let_def py_slice_page)


theorem pagination_never_fails_witness:
  "find_cached_query (query_string [] 2 1)
     (db (snd (search_properties
        (answering [[(''id'', Atom (PStr ''1''))], [(''id'', Atom (PStr ''2''))], [(''id'', Atom (PStr ''3''))]])
        ''t1'' [] 2 1 cold))) = Some 1
   \<and> ids_of (fst (search_properties failing ''t2'' [] 2 1
        (snd (search_properties
          (answering [[(''id'', Atom (PStr ''1''))], [(''id'', Atom (PStr ''2''))], [(''id'', Atom (PStr ''3''))]])
          ''t1'' [] 2 1 cold))))
     = Inr [Atom (PStr ''2'')]"
  using pagination_never_fails [of "[]" 2 1
      "snd (search_properties
        (answering [[(''id'', Atom (PStr ''1''))], [(''id'', Atom (PStr ''2''))], [(''id'', Atom (PStr ''3''))]])
        ''t1'' [] 2 1 cold)" 1 failing "''t2''"]
  by (simp add: store_eval ids_of_def)

text \<open>
  Claim C9 as stated fails: with page \<open>-1\<close> and limit \<open>2\<close> the bounds are \<open>-4\<close> and
  \<open>-2\<close>, and the search on the cached key returns the second and third of five stored
  listings, not an error.
\<close>

theorem pagination_rejects_counterexample:
  "ids_of (fst (search_properties failing ''t2'' [] (- 1) 2
        (snd (search_properties
          (answering [[(''id'', Atom (PStr ''1''))], [(''id'', Atom (PStr ''2''))], [(''id'', Atom (PStr ''3''))],
                      [(''id'', Atom (PStr ''4''))], [(''id'', Atom (PStr ''5''))]])
          ''t1'' [] (- 1) 2 cold))))
     = Inr [Atom (PStr ''2''), Atom (PStr ''3'')]"
  by (simp add: store_eval ids_of_def)

section \<open>Empty results, and saves that fail\<close>

lemma apply_price_filter_Nil: "apply_price_filter cleaned [] = Inr []"
  by (simp add: apply_price_filter_def Let_def)

text \<open>
  Claim C10. When the key is not cached and the listing source answers with no listing,
  the search returns the empty list and leaves the store as it was; the one change is
  the call recorded for the listing source. The key is still not cached, and a further
  search with the same filters calls the listing source again, whatever it answers.
\<close>

theorem empty_result_not_cached:
  assumes "find_cached_query (query_string filters page limit) (db w) = None"
    and "upstream (rename_query (cleaned_filters filters page limit)) = Inr []"
  shows "search_properties upstream now filters page limit w
           = (Inr [], w\<lparr>upstream_calls :=
                          upstream_calls w @ [rename_query (cleaned_filters filters page limit)]\<rparr>)
       \<and> db (snd (search_properties upstream now filters page limit w)) = db w
       \<and> find_cached_query (query_string filters page limit)
            (db (snd (search_properties upstream now filters page limit w))) = None
       \<and> upstream_calls (snd (search_properties upstream2 now2 filters page limit
            (snd (search_properties upstream now filters page limit w))))
          = upstream_calls w @ [rename_query (cleaned_filters filters page limit),
                                rename_query (cleaned_filters filters page limit)]"
proof -
  let ?c = "rename_query (cleaned_filters filters page limit)"
  let ?w1 = "w\<lparr>upstream_calls := upstream_calls w @ [?c]\<rparr>"
  have first: "search_properties upstream now filters page limit w = (Inr [], ?w1)"
    using assms by (simp add: search_properties_def Let_def apply_price_filter_Nil)
  have miss: "find_cached_query (query_string filters page limit) (db ?w1) = None"
    using assms(1) by simp
  have "upstream_calls (snd (search_properties upstream2 now2 filters page limit ?w1))
      = upstream_calls ?w1 @ [?c]"
    using miss by (simp add: search_properties_def Let_def split: sum.splits prod.splits)
  with first assms(1) show ?thesis
    by simp
qed

theorem empty_result_not_cached_witness:
  "find_cached_query (query_string [(''query'', Atom (PStr ''nowhere''))] 1 50) (db cold) = None
   \<and> answering [] (rename_query (cleaned_filters [(''query'', Atom (PStr ''nowhere''))] 1 50)) = Inr []
   \<and> search_properties (answering []) ''t'' [(''query'', Atom (PStr ''nowhere''))] 1 50 cold
      = (Inr [], cold\<lparr>upstream_calls :=
           [[(''page'', Atom (PInt 1)), (''limit'', Atom (PInt 50)),
             (''location_query'', Atom (PStr ''nowhere''))]]\<rparr>)"
  using empty_result_not_cached [of "[(''query'', Atom (PStr ''nowhere''))]" 1 50 cold "answering []" "''t''"]
  by (simp add: store_eval)

lemma save_properties_queries:
  "cached_queries (snd (save_properties now q props s)) = cached_queries s"
  by (induction props arbitrary: s)
    (auto simp add: insert_link_def replace_property_def split: sum.splits)

text \<open>
  What a failed save leaves behind: the transaction of the properties and links is
  rolled back, to the state committed at line 103, which holds the query row.
\<close>

lemma save_failure_leaves_query:
  assumes "save_query_and_properties now qs props d = (Inl e, d')"
  shows "committed d' = insert_query now qs (working d) \<and> working d' = committed d'"
  using assms
  by (auto simp add: save_query_and_properties_def Let_def commit_def rollback_def execute_def
      split: option.splits sum.splits prod.splits)

text \<open>
  Claim C1. The save of two listings, the second with a list as title, which cannot be
  bound: the call raises, the property and the link written for the first listing are
  rolled back, and the query row committed at line 103 stays, so that the key is found
  in the cache afterwards.
\<close>

theorem save_failure_keeps_query_row:
  "fst (save_query_and_properties ''t'' ''k''
          [[(''id'', Atom (PInt 1)), (''title'', Atom (PStr ''villa''))],
           [(''id'', Atom (PInt 2)), (''title'', PList [PStr ''flat''])]] empty_db)
     = Inl BindError
   \<and> cached_queries (committed (snd (save_query_and_properties ''t'' ''k''
          [[(''id'', Atom (PInt 1)), (''title'', Atom (PStr ''villa''))],
           [(''id'', Atom (PInt 2)), (''title'', PList [PStr ''flat''])]] empty_db)))
     = [(1, ''k'', ''t'')]
   \<and> cached_properties (committed (snd (save_query_and_properties ''t'' ''k''
          [[(''id'', Atom (PInt 1)), (''title'', Atom (PStr ''villa''))],
           [(''id'', Atom (PInt 2)), (''title'', PList [PStr ''flat''])]] empty_db))) ''1''
     = None
   \<and> query_property_map (committed (snd (save_query_and_properties ''t'' ''k''
          [[(''id'', Atom (PInt 1)), (''title'', Atom (PStr ''villa''))],
           [(''id'', Atom (PInt 2)), (''title'', PList [PStr ''flat''])]] empty_db)))
     = []
   \<and> cached_queries (committed empty_db) = []
   \<and> committed (snd (save_query_and_properties ''t'' ''k''
          [[(''id'', Atom (PInt 1)), (''title'', Atom (PStr ''villa''))],
           [(''id'', Atom (PInt 2)), (''title'', PList [PStr ''flat''])]] empty_db))
     \<noteq> committed empty_db
   \<and> find_cached_query ''k'' (snd (save_query_and_properties ''t'' ''k''
          [[(''id'', Atom (PInt 1)), (''title'', Atom (PStr ''villa''))],
           [(''id'', Atom (PInt 2)), (''title'', PList [PStr ''flat''])]] empty_db))
     = Some 1"
proof -
  let ?after = "snd (save_query_and_properties ''t'' ''k''
      [[(''id'', Atom (PInt 1)), (''title'', Atom (PStr ''villa''))],
       [(''id'', Atom (PInt 2)), (''title'', PList [PStr ''flat''])]] empty_db)"
  have rows: "cached_queries (committed ?after) = [(1, ''k'', ''t'')]"
    by (simp add: store_eval)
  have none: "cached_queries (committed empty_db) = []"
    by (simp add: store_eval)
  have "committed ?after \<noteq> committed empty_db"
  proof
    assume "committed ?after = committed empty_db"
    then have "cached_queries (committed ?after) = cached_queries (committed empty_db)"
      by (rule arg_cong)
    then show False
      unfolding rows none by simp
  qed
  moreover have "fst (save_query_and_properties ''t'' ''k''
      [[(''id'', Atom (PInt 1)), (''title'', Atom (PStr ''villa''))],
       [(''id'', Atom (PInt 2)), (''title'', PList [PStr ''flat''])]] empty_db) = Inl BindError"
    by (simp add: store_eval)
  moreover have "cached_properties (committed ?after) ''1'' = None"
    by (simp add: store_eval)
  moreover have "query_property_map (committed ?after) = []"
    by (simp add: store_eval)
  moreover have "find_cached_query ''k'' ?after = Some 1"
    by (simp add: store_eval)
  ultimately show ?thesis
    using rows none by (intro conjI)
qed

section \<open>Saving twice\<close>

lemma select_query_id_insert: "select_query_id qs (insert_query now qs s) \<noteq> None"
  by (auto simp add: insert_query_def select_query_id_def map_add_def split: option.splits)

lemma insert_query_present: "select_query_id qs s \<noteq> None \<Longrightarrow> insert_query now qs s = s"
  by (simp add: insert_query_def)

lemma insert_query_twice:
  "insert_query now2 qs (insert_query now1 qs s) = insert_query now1 qs s"
  by (rule insert_query_present) (rule select_query_id_insert)

lemma insert_query_properties [simp]:
  "cached_properties (insert_query now qs s) = cached_properties s"
  by (simp add: insert_query_def)

lemma insert_query_links [simp]:
  "query_property_map (insert_query now qs s) = query_property_map s"
  by (simp add: insert_query_def)

lemma property_row_of_time:
  "property_row_of now' p =
     (case property_row_of now p of Inl e \<Rightarrow> Inl e | Inr r \<Rightarrow> Inr (r\<lparr>created_at := now'\<rparr>))"
  by (simp add: property_row_of_def split: sum.splits)

lemma fst_save_properties:
  "fst (save_properties now q props s) = fst (save_properties now' q' props s')"
proof (induction props arbitrary: s s')
  case Nil
  then show ?case by simp
next
  case (Cons p props)
  show ?case
  proof (cases "property_row_of now p")
    case (Inl e)
    then show ?thesis
      by (simp add: property_row_of_time [of now' p now])
  next
    case (Inr r)
    then show ?thesis
      using Cons.IH by (simp add: property_row_of_time [of now' p now])
  qed
qed

lemma save_properties_outside:
  "pid \<notin> property_id ` set props \<Longrightarrow>
     cached_properties (snd (save_properties now q props s)) pid = cached_properties s pid"
  by (induction props arbitrary: s)
    (auto simp add: insert_link_def replace_property_def split: sum.splits)

lemma save_properties_agree:
  assumes "\<forall>pid. pid \<notin> property_id ` set props \<longrightarrow> cached_properties s pid = cached_properties s' pid"
    and "fst (save_properties now q props s) = Inr ()"
  shows "cached_properties (snd (save_properties now q props s))
       = cached_properties (snd (save_properties now q' props s'))"
  using assms
proof (induction props arbitrary: s s')
  case Nil
  then show ?case by (simp add: fun_eq_iff)
next
  case (Cons p props)
  from Cons.prems(2) obtain row where row: "property_row_of now p = Inr row"
    by (cases "property_row_of now p") auto
  let ?s = "insert_link q (property_id p) (replace_property (property_id p) row s)"
  let ?s' = "insert_link q' (property_id p) (replace_property (property_id p) row s')"
  have "\<forall>pid. pid \<notin> property_id ` set props \<longrightarrow> cached_properties ?s pid = cached_properties ?s' pid"
    using Cons.prems(1) by (simp add: insert_link_def replace_property_def)
  moreover have "fst (save_properties now q props ?s) = Inr ()"
    using Cons.prems(2) row by simp
  ultimately have "cached_properties (snd (save_properties now q props ?s))
       = cached_properties (snd (save_properties now q' props ?s'))"
    by (rule Cons.IH)
  with row show ?case by simp
qed

lemma save_properties_links_mono:
  "x \<in> set (query_property_map s) \<Longrightarrow>
     x \<in> set (query_property_map (snd (save_properties now q props s)))"
  by (induction props arbitrary: s)
    (auto simp add: insert_link_def replace_property_def split: sum.splits)

lemma save_properties_linked:
  "fst (save_properties now q props s) = Inr () \<Longrightarrow> p \<in> set props \<Longrightarrow>
     (q, property_id p) \<in> set (query_property_map (snd (save_properties now q props s)))"
proof (induction props arbitrary: s)
  case Nil
  then show ?case by simp
next
  case (Cons a props)
  from Cons.prems(1) obtain row where row: "property_row_of now a = Inr row"
    by (cases "property_row_of now a") auto
  let ?s = "insert_link q (property_id a) (replace_property (property_id a) row s)"
  show ?case
  proof (cases "p = a")
    case True
    have "(q, property_id a) \<in> set (query_property_map ?s)"
      by (simp add: insert_link_def replace_property_def)
    then show ?thesis
      using row True by (simp add: save_properties_links_mono)
  next
    case False
    with Cons.prems row show ?thesis
      by (simp add: Cons.IH)
  qed
qed

lemma save_properties_links_same:
  "\<forall>p\<in>set props. (q, property_id p) \<in> set (query_property_map s) \<Longrightarrow>
     query_property_map (snd (save_properties now q props s)) = query_property_map s"
  by (induction props arbitrary: s)
    (auto simp add: insert_link_def replace_property_def split: sum.splits)

text \<open>The call in terms of the states of the store.\<close>

lemma save_unfold:
  "save_query_and_properties now qs props d =
     (let s0 = insert_query now qs (working d)
      in case select_query_id qs s0 of
           None \<Rightarrow> (Inl TypeError, \<lparr>committed = s0, working = s0\<rparr>)
         | Some q \<Rightarrow>
             (case fst (save_properties now q props s0) of
                Inl e \<Rightarrow> (Inl e, \<lparr>committed = s0, working = s0\<rparr>)
              | Inr u \<Rightarrow> (Inr (), \<lparr>committed = snd (save_properties now q props s0),
                                    working = snd (save_properties now q props s0)\<rparr>)))"
  by (cases d)
    (simp add: save_query_and_properties_def Let_def commit_def rollback_def execute_def
      split: option.splits sum.splits prod.splits)

lemma select_query_id_cong:
  "cached_queries a = cached_queries b \<Longrightarrow> select_query_id qs a = select_query_id qs b"
  by (simp add: select_query_id_def)

lemma store_eqI:
  fixes a b :: store
  assumes "cached_queries a = cached_queries b"
    and "cached_properties a = cached_properties b"
    and "query_property_map a = query_property_map b"
  shows "a = b"
  using assms by (cases a, cases b) simp

text \<open>
  Claim C5, as amended. A second save of the same key and properties leaves the query
  rows and the links as the first call left them, gives the result of the first call,
  and leaves the property rows as one call at the clock reading of the second call
  leaves them: the rows hold the values of the properties, and their \<^verbatim>\<open>created_at\<close> is
  that of the second call. When both calls read the same clock, the database after the
  second call is the database after the first.
\<close>

theorem save_twice:
  "cached_queries (committed (snd (save_query_and_properties now2 qs props
        (snd (save_query_and_properties now1 qs props d)))))
     = cached_queries (committed (snd (save_query_and_properties now1 qs props d)))
   \<and> query_property_map (committed (snd (save_query_and_properties now2 qs props
        (snd (save_query_and_properties now1 qs props d)))))
     = query_property_map (committed (snd (save_query_and_properties now1 qs props d)))
   \<and> cached_properties (committed (snd (save_query_and_properties now2 qs props
        (snd (save_query_and_properties now1 qs props d)))))
     = cached_properties (committed (snd (save_query_and_properties now2 qs props d)))
   \<and> fst (save_query_and_properties now2 qs props (snd (save_query_and_properties now1 qs props d)))
     = fst (save_query_and_properties now1 qs props d)
   \<and> (now1 = now2 \<longrightarrow>
        snd (save_query_and_properties now2 qs props (snd (save_query_and_properties now1 qs props d)))
        = snd (save_query_and_properties now1 qs props d))"
proof -
  let ?s0 = "insert_query now1 qs (working d)"
  let ?t0 = "insert_query now2 qs (working d)"
  obtain q where q: "select_query_id qs ?s0 = Some q"
    using select_query_id_insert [of qs now1 "working d"] by auto
  obtain q' where q': "select_query_id qs ?t0 = Some q'"
    using select_query_id_insert [of qs now2 "working d"] by auto
  let ?r1 = "fst (save_properties now1 q props ?s0)"
  let ?s1 = "snd (save_properties now1 q props ?s0)"
  show ?thesis
  proof (cases ?r1)
    case (Inl e)
    have first: "save_query_and_properties now1 qs props d = (Inl e, \<lparr>committed = ?s0, working = ?s0\<rparr>)"
      using q Inl by (simp add: save_unfold Let_def)
    have "fst (save_properties now2 q props ?s0) = Inl e"
      using Inl fst_save_properties [of now2 q props ?s0 now1 q ?s0] by simp
    then have second: "save_query_and_properties now2 qs props \<lparr>committed = ?s0, working = ?s0\<rparr>
        = (Inl e, \<lparr>committed = ?s0, working = ?s0\<rparr>)"
      using q by (simp add: save_unfold Let_def insert_query_twice)
    have "fst (save_properties now2 q' props ?t0) = Inl e"
      using Inl fst_save_properties [of now2 q' props ?t0 now1 q ?s0] by simp
    then have single: "save_query_and_properties now2 qs props d = (Inl e, \<lparr>committed = ?t0, working = ?t0\<rparr>)"
      using q' by (simp add: save_unfold Let_def)
    have a: "snd (save_query_and_properties now2 qs props (snd (save_query_and_properties now1 qs props d)))
        = snd (save_query_and_properties now1 qs props d)"
      by (simp add: first second)
    have b: "fst (save_query_and_properties now2 qs props (snd (save_query_and_properties now1 qs props d)))
        = fst (save_query_and_properties now1 qs props d)"
      by (simp add: first second)
    have c: "cached_properties (committed (snd (save_query_and_properties now1 qs props d)))
        = cached_properties (committed (snd (save_query_and_properties now2 qs props d)))"
      by (simp add: first single)
    show ?thesis
      unfolding a using b c by blast
  next
    case (Inr u)
    then have ok1: "?r1 = Inr ()" by simp
    have first: "save_query_and_properties now1 qs props d = (Inr (), \<lparr>committed = ?s1, working = ?s1\<rparr>)"
      using q ok1 by (simp add: save_unfold Let_def)
    have queries1: "cached_queries ?s1 = cached_queries ?s0"
      by (rule save_properties_queries)
    then have q1: "select_query_id qs ?s1 = Some q"
      using q by (simp add: select_query_id_cong [of ?s1 ?s0])
    then have ins: "insert_query now2 qs ?s1 = ?s1"
      by (simp add: insert_query_present)
    let ?s2 = "snd (save_properties now2 q props ?s1)"
    have ok2: "fst (save_properties now2 q props ?s1) = Inr ()"
      using ok1 fst_save_properties [of now2 q props ?s1 now1 q ?s0] by simp
    have second: "save_query_and_properties now2 qs props \<lparr>committed = ?s1, working = ?s1\<rparr>
        = (Inr (), \<lparr>committed = ?s2, working = ?s2\<rparr>)"
      using q1 ok2 by (simp add: save_unfold Let_def ins)
    let ?t1 = "snd (save_properties now2 q' props ?t0)"
    have ok3: "fst (save_properties now2 q' props ?t0) = Inr ()"
      using ok1 fst_save_properties [of now2 q' props ?t0 now1 q ?s0] by simp
    have single: "save_query_and_properties now2 qs props d = (Inr (), \<lparr>committed = ?t1, working = ?t1\<rparr>)"
      using q' ok3 by (simp add: save_unfold Let_def)
    have queries2: "cached_queries ?s2 = cached_queries ?s1"
      by (rule save_properties_queries)
    have links2: "query_property_map ?s2 = query_property_map ?s1"
    proof (rule save_properties_links_same)
      show "\<forall>p\<in>set props. (q, property_id p) \<in> set (query_property_map ?s1)"
        using ok1 by (blast intro: save_properties_linked)
    qed
    have outside: "\<forall>pid. pid \<notin> property_id ` set props \<longrightarrow>
        cached_properties ?s1 pid = cached_properties (working d) pid"
      by (simp add: save_properties_outside)
    have props2: "cached_properties ?s2 = cached_properties ?t1"
      using outside ok2 by (intro save_properties_agree) simp_all
    have same: "?s2 = ?s1" if "now1 = now2"
    proof (rule store_eqI)
      show "cached_queries ?s2 = cached_queries ?s1" by (rule queries2)
      show "query_property_map ?s2 = query_property_map ?s1" by (rule links2)
      have "cached_properties (snd (save_properties now1 q props ?s1))
          = cached_properties (snd (save_properties now1 q props ?s0))"
        using outside ok2 that by (intro save_properties_agree) simp_all
      with that show "cached_properties ?s2 = cached_properties ?s1" by simp
    qed
    have "now1 = now2 \<longrightarrow>
        snd (save_query_and_properties now2 qs props (snd (save_query_and_properties now1 qs props d)))
        = snd (save_query_and_properties now1 qs props d)"
      unfolding first second snd_conv using same by blast
    moreover have "fst (save_query_and_properties now2 qs props (snd (save_query_and_properties now1 qs props d)))
        = fst (save_query_and_properties now1 qs props d)"
      by (simp add: first second)
    moreover have "cached_properties (committed (snd (save_query_and_properties now2 qs props
          (snd (save_query_and_properties now1 qs props d)))))
        = cached_properties (committed (snd (save_query_and_properties now2 qs props d)))"
      using props2 by (simp add: first second single)
    moreover have "cached_queries (committed (snd (save_query_and_properties now2 qs props
          (snd (save_query_and_properties now1 qs props d)))))
        = cached_queries (committed (snd (save_query_and_properties now1 qs props d)))"
      using queries2 by (simp add: first second)
    moreover have "query_property_map (committed (snd (save_query_and_properties now2 qs props
          (snd (save_query_and_properties now1 qs props d)))))
        = query_property_map (committed (snd (save_query_and_properties now1 qs props d)))"
      using links2 by (simp add: first second)
    ultimately show ?thesis
      by blast
  qed
qed


theorem save_twice_witness:
  "''t'' = ''t''
   \<and> snd (save_query_and_properties ''t'' ''k'' [[(''id'', Atom (PInt 7)), (''price'', Atom (PInt 100))]]
        (snd (save_query_and_properties ''t'' ''k''
           [[(''id'', Atom (PInt 7)), (''price'', Atom (PInt 100))]] empty_db)))
     = snd (save_query_and_properties ''t'' ''k''
           [[(''id'', Atom (PInt 7)), (''price'', Atom (PInt 100))]] empty_db)
   \<and> cached_queries (committed (snd (save_query_and_properties ''t'' ''k''
           [[(''id'', Atom (PInt 7)), (''price'', Atom (PInt 100))]] empty_db)))
     = [(1, ''k'', ''t'')]
   \<and> query_property_map (committed (snd (save_query_and_properties ''t'' ''k''
           [[(''id'', Atom (PInt 7)), (''price'', Atom (PInt 100))]] empty_db)))
     = [(1, ''7'')]"
  using save_twice [of "''t''" "''k''" "[[(''id'', Atom (PInt 7)), (''price'', Atom (PInt 100))]]"
      "''t''" empty_db]
  by (simp add: store_eval)

text \<open>
  Claim C5 as stated fails: \<^verbatim>\<open>INSERT OR REPLACE\<close> writes the row anew, so after a second
  save at a later clock reading the row of the property carries the later \<^verbatim>\<open>created_at\<close>,
  and the store is not the store that the first call left.
\<close>

theorem save_twice_counterexample:
  "map_option created_at (cached_properties (committed
      (snd (save_query_and_properties ''t1'' ''k''
         [[(''id'', Atom (PInt 7)), (''price'', Atom (PInt 100))]] empty_db))) ''7'')
     = Some ''t1''
   \<and> map_option created_at (cached_properties (committed
      (snd (save_query_and_properties ''t2'' ''k'' [[(''id'', Atom (PInt 7)), (''price'', Atom (PInt 100))]]
        (snd (save_query_and_properties ''t1'' ''k''
           [[(''id'', Atom (PInt 7)), (''price'', Atom (PInt 100))]] empty_db))))) ''7'')
     = Some ''t2''
   \<and> committed (snd (save_query_and_properties ''t2'' ''k''
        [[(''id'', Atom (PInt 7)), (''price'', Atom (PInt 100))]]
        (snd (save_query_and_properties ''t1'' ''k''
           [[(''id'', Atom (PInt 7)), (''price'', Atom (PInt 100))]] empty_db))))
     \<noteq> committed (snd (save_query_and_properties ''t1'' ''k''
           [[(''id'', Atom (PInt 7)), (''price'', Atom (PInt 100))]] empty_db))"
proof -
  let ?once = "committed (snd (save_query_and_properties ''t1'' ''k''
      [[(''id'', Atom (PInt 7)), (''price'', Atom (PInt 100))]] empty_db))"
  let ?twice = "committed (snd (save_query_and_properties ''t2'' ''k''
      [[(''id'', Atom (PInt 7)), (''price'', Atom (PInt 100))]]
      (snd (save_query_and_properties ''t1'' ''k''
         [[(''id'', Atom (PInt 7)), (''price'', Atom (PInt 100))]] empty_db))))"
  have once: "map_option created_at (cached_properties ?once ''7'') = Some ''t1''"
    by (simp add: store_eval)
  have twice: "map_option created_at (cached_properties ?twice ''7'') = Some ''t2''"
    by (simp add: store_eval)
  have "?twice \<noteq> ?once"
  proof
    assume "?twice = ?once"
    then have "map_option created_at (cached_properties ?twice ''7'')
        = map_option created_at (cached_properties ?once ''7'')"
      by (rule arg_cong)
    then show False
      unfolding once twice by simp
  qed
  with once twice show ?thesis
    by (intro conjI)
qed

section \<open>A repeated search\<close>

















end
